theory Spec2Isabelle
  imports Main "HOL-Library.Sublist" "HOL-Library.Char_ord" "HOL-Library.List_Lexorder"
begin

section \<open>Strings of the checker\<close>

text \<open>
  A Python \<open>str\<close> is embedded as a \<^typ>\<open>string\<close>: one \<^typ>\<open>char\<close> per code point,
  for the code points below 256. \<open>len\<close> is \<^const>\<open>length\<close>, \<open>startswith\<close> is
  \<^const>\<open>prefix\<close>.
\<close>

definition dquote :: char where
  "dquote = CHR 0x22"

definition newline :: char where
  "newline = CHR 0x0A"

text \<open>
  The characters on which \<open>str.split()\<close> (no argument) splits: the code points below 256
  that Python counts as white space.
\<close>

definition is_space :: "char \<Rightarrow> bool" where
  "is_space c \<longleftrightarrow> c \<in> {CHR 0x09, CHR 0x0A, CHR 0x0B, CHR 0x0C, CHR 0x0D,
     CHR 0x1C, CHR 0x1D, CHR 0x1E, CHR 0x1F, CHR 0x20, CHR 0x85, CHR 0xA0}"

text \<open>The character classes \<open>[a-z]\<close>, \<open>[A-Z]\<close> and \<open>[a-z0-9_]\<close> of the source's patterns.\<close>

definition is_lower :: "char \<Rightarrow> bool" where
  "is_lower c \<longleftrightarrow> CHR ''a'' \<le> c \<and> c \<le> CHR ''z''"

definition is_upper :: "char \<Rightarrow> bool" where
  "is_upper c \<longleftrightarrow> CHR ''A'' \<le> c \<and> c \<le> CHR ''Z''"

definition is_digit :: "char \<Rightarrow> bool" where
  "is_digit c \<longleftrightarrow> CHR ''0'' \<le> c \<and> c \<le> CHR ''9''"

definition is_name_char :: "char \<Rightarrow> bool" where
  "is_name_char c \<longleftrightarrow> is_lower c \<or> is_digit c \<or> c = CHR ''_''"

text \<open>The \<open>.\<close> of a pattern compiled without flags: any character but the line feed.\<close>

definition is_dot :: "char \<Rightarrow> bool" where
  "is_dot c \<longleftrightarrow> c \<noteq> newline"

text \<open>
  \<open>str.split()\<close>: the maximal runs of characters that are not white space, in order.
  \<open>cur\<close> is the run being read.
\<close>

fun split_run :: "string \<Rightarrow> string \<Rightarrow> string list" where
  "split_run cur [] = (if cur = [] then [] else [cur])"
| "split_run cur (c # cs) =
     (if is_space c then (if cur = [] then split_run [] cs else cur # split_run [] cs)
      else split_run (cur @ [c]) cs)"

definition split_ws :: "string \<Rightarrow> string list" where
  "split_ws s = split_run [] s"

text \<open>\<open>str.split(sep)\<close> for a one-character separator: every piece is kept, the empty ones too.\<close>

fun split_on :: "char \<Rightarrow> string \<Rightarrow> string list" where
  "split_on sep [] = [[]]"
| "split_on sep (c # cs) =
     (if c = sep then [] # split_on sep cs
      else (case split_on sep cs of
              [] \<Rightarrow> [[c]]
            | p # ps \<Rightarrow> (c # p) # ps))"

text \<open>\<open>sub in s\<close>: \<open>sub\<close> occurs in \<open>s\<close> as a contiguous run.\<close>

fun contains :: "string \<Rightarrow> string \<Rightarrow> bool" where
  "contains sub [] = (sub = [])"
| "contains sub (c # cs) = (prefix sub (c # cs) \<or> contains sub cs)"

text \<open>
  \<open>re.sub(r"\n{2}", "", s)\<close>: every pair of adjacent line feeds, found from left to right
  without overlap, is deleted.
\<close>

fun remove_double_newlines :: "string \<Rightarrow> string" where
  "remove_double_newlines (a # b # rest) =
     (if a = newline \<and> b = newline then remove_double_newlines rest
      else a # remove_double_newlines (b # rest))"
| "remove_double_newlines [a] = [a]"
| "remove_double_newlines [] = []"

subsection \<open>The patterns of the source\<close>

text \<open>
  The patterns the source hands to \<open>re\<close> are sequences of literals, of single characters of a
  class and of \<open>+\<close>-repetitions of a class. \<open>re_here\<close> is the backtracking matcher at a fixed
  start: it returns the text matched, a repetition trying the longest run first.
\<close>

datatype re_item = Lit string | One "char \<Rightarrow> bool" | Plus "char \<Rightarrow> bool"

fun re_here :: "re_item list \<Rightarrow> string \<Rightarrow> string option"
  and re_plus :: "(char \<Rightarrow> bool) \<Rightarrow> re_item list \<Rightarrow> string \<Rightarrow> string option" where
  "re_here [] s = Some []"
| "re_here (Lit l # r) s =
     (if prefix l s then map_option ((@) l) (re_here r (drop (length l) s)) else None)"
| "re_here (One p # r) [] = None"
| "re_here (One p # r) (c # s) = (if p c then map_option ((#) c) (re_here r s) else None)"
| "re_here (Plus p # r) s = re_plus p r s"
| "re_plus p r [] = None"
| "re_plus p r (c # s) =
     (if p c then
        (case re_plus p r s of
           Some m \<Rightarrow> Some (c # m)
         | None \<Rightarrow> map_option ((#) c) (re_here r s))
      else None)"

text \<open>\<open>re.match\<close> tries the start of the text only, \<open>re.search\<close> every position from the left.\<close>

definition re_match :: "re_item list \<Rightarrow> string \<Rightarrow> string option" where
  "re_match items s = re_here items s"

fun re_search :: "re_item list \<Rightarrow> string \<Rightarrow> string option" where
  "re_search items [] = re_here items []"
| "re_search items (c # s) =
     (case re_here items (c # s) of Some m \<Rightarrow> Some m | None \<Rightarrow> re_search items s)"

section \<open>The static rule engine\<close>

text \<open>
  What the source raises: \<open>IndexError\<close> for a read past the end of a list or string,
  \<open>AttributeError\<close> for \<open>getattr\<close> on an exception that carries no \<open>orig\<close>.
\<close>

datatype error = IndexError | AttributeError

text \<open>\<open>xs[i]\<close> for the literal indices \<open>i \<ge> 0\<close> of the source.\<close>

definition index :: "'a list \<Rightarrow> nat \<Rightarrow> error + 'a" where
  "index xs i = (if i < length xs then Inr (xs ! i) else Inl IndexError)"

text \<open>
  A diagnostic is one of the source's message templates together with the values it
  interpolates. The templates of the static checks differ in their fixed text, so two
  diagnostics are the same message only if they are the same value here.
  \<open>RawError\<close> carries the text the execution phase appends as it is.
\<close>

datatype message =
    TableNameTooLong string
  | IndexMixedCase string
  | IndexNameTooLong string
  | IdentifierMixedCase string
  | IdentifierTooLong string nat
  | AlterOrder string
  | MissingPrimaryKey string
  | PartitionKey string string
  | RawError string

record checker =
  ddl :: string
  no_primary_key_table_names :: "string set"
  messages :: "message list"

definition init :: "string \<Rightarrow> checker" where
  "init d = \<lparr>ddl = d, no_primary_key_table_names = {}, messages = []\<rparr>"

definition append_message :: "message \<Rightarrow> checker \<Rightarrow> checker" where
  "append_message m self = self\<lparr>messages := messages self @ [m]\<rparr>"

text \<open>
  \<open>re.search(r"^(?=.*[a-z])(?=.*[A-Z]).*$", text)\<close>: the pattern is tried at the start of the
  text only, \<open>.\<close> stops at a line feed, and \<open>$\<close> holds at the end of the text or before a
  line feed that ends it. So it matches when the first line holds a lowercase and an
  uppercase letter and nothing but at most one final line feed follows that line.
\<close>

definition mixes_upper_lower :: "string \<Rightarrow> bool" where
  "mixes_upper_lower text =
     (let line = takeWhile is_dot text; rest = dropWhile is_dot text
      in list_ex is_lower line \<and> list_ex is_upper line \<and> (rest = [] \<or> rest = [newline]))"

definition check_mix_upper_lower_case_text :: "string \<Rightarrow> error + bool" where
  "check_mix_upper_lower_case_text text =
     (if mixes_upper_lower text then
        (case index text 0 of
           Inl e \<Rightarrow> Inl e
         | Inr first \<Rightarrow>
             if \<not> (first = dquote \<and> last text = dquote) then Inr False else Inr True)
      else Inr True)"

definition check_create_table_query :: "checker \<Rightarrow> string \<Rightarrow> error + checker" where
  "check_create_table_query self query =
     (let tokens = split_ws query in
      case index tokens 2 of
        Inl e \<Rightarrow> Inl e
      | Inr table_name \<Rightarrow>
          let self1 =
                (if \<not> contains ''PRIMARY KEY'' query
                 then self\<lparr>no_primary_key_table_names :=
                        insert table_name (no_primary_key_table_names self)\<rparr>
                 else self);
              self2 =
                (if length table_name > 63
                 then append_message (TableNameTooLong table_name) self1
                 else self1)
          in Inr self2)"

definition check_create_index_query :: "checker \<Rightarrow> string \<Rightarrow> bool \<Rightarrow> error + checker" where
  "check_create_index_query self query is_unique =
     (let tokens = split_ws query in
      case index tokens 2 of
        Inl e \<Rightarrow> Inl e
      | Inr third \<Rightarrow>
          (case (if is_unique then index tokens 3 else Inr third) of
             Inl e \<Rightarrow> Inl e
           | Inr index_name \<Rightarrow>
               (case check_mix_upper_lower_case_text index_name of
                  Inl e \<Rightarrow> Inl e
                | Inr ok \<Rightarrow>
                    let self1 =
                          (if \<not> ok then append_message (IndexMixedCase index_name) self
                           else self);
                        self2 =
                          (if length index_name > 63
                           then append_message (IndexNameTooLong index_name) self1
                           else self1)
                    in Inr self2)))"

text \<open>
  The constraint kind: \<open>tokens[6] == "PRIMARY" and tokens[7] == "KEY"\<close>, then the same for
  \<open>FOREIGN\<close>, then \<open>tokens[6] == "UNIQUE"\<close>. \<open>and\<close> reads \<open>tokens[7]\<close> only if the first
  comparison holds. The last two branches do nothing, but they read their tokens.
\<close>

definition check_alter_table_add_constraint_query :: "checker \<Rightarrow> string \<Rightarrow> error + checker" where
  "check_alter_table_add_constraint_query self query =
     (let tokens = split_ws query in
      case index tokens 2 of
        Inl e \<Rightarrow> Inl e
      | Inr table_name \<Rightarrow>
     (case index tokens 5 of
        Inl e \<Rightarrow> Inl e
      | Inr identifier \<Rightarrow>
     (case check_mix_upper_lower_case_text identifier of
        Inl e \<Rightarrow> Inl e
      | Inr ok \<Rightarrow>
     (let self1 =
            (if \<not> ok then append_message (IdentifierMixedCase identifier) self else self);
          self2 =
            (if length (filter (\<lambda>c. c \<noteq> dquote) identifier) > 63
             then append_message (IdentifierTooLong identifier (length identifier)) self1
             else self1)
      in
      case index tokens 6 of
        Inl e \<Rightarrow> Inl e
      | Inr kind1 \<Rightarrow>
          if kind1 = ''PRIMARY'' then
            (case index tokens 7 of
               Inl e \<Rightarrow> Inl e
             | Inr kind2 \<Rightarrow>
                 if kind2 = ''KEY'' then
                   (if table_name \<in> no_primary_key_table_names self2
                    then Inr (self2\<lparr>no_primary_key_table_names :=
                                no_primary_key_table_names self2 - {table_name}\<rparr>)
                    else Inr (append_message (AlterOrder table_name) self2))
                 else Inr self2)
          else if kind1 = ''FOREIGN'' then
            (case index tokens 7 of
               Inl e \<Rightarrow> Inl e
             | Inr kind2 \<Rightarrow> Inr self2)
          else Inr self2))))"

text \<open>The pattern of \<open>re.match("ALTER TABLE [a-z0-9_]+ ADD CONSTRAINT", query)\<close>.\<close>

definition alter_pattern :: "re_item list" where
  "alter_pattern = [Lit ''ALTER TABLE '', Plus is_name_char, Lit '' ADD CONSTRAINT'']"

text \<open>One turn of the loop of \<open>_check_ddl_syntax\<close>: the chain of tests on the statement.\<close>

definition check_query :: "checker \<Rightarrow> string \<Rightarrow> error + checker" where
  "check_query self query =
     (if prefix ''CREATE TABLE'' query then check_create_table_query self query
      else if prefix ''CREATE INDEX'' query then check_create_index_query self query False
      else if prefix ''CREATE UNIQUE INDEX'' query then check_create_index_query self query True
      else if re_match alter_pattern query \<noteq> None
        then check_alter_table_add_constraint_query self query
      else Inr self)"

text \<open>The statements the loop runs over: \<open>re.sub(r"\n{2}", "", self._ddl).split(";")\<close>.\<close>

definition queries :: "string \<Rightarrow> string list" where
  "queries d = split_on CHR '';'' (remove_double_newlines d)"

fun check_queries :: "checker \<Rightarrow> string list \<Rightarrow> error + checker" where
  "check_queries self [] = Inr self"
| "check_queries self (query # rest) =
     (case check_query self query of
        Inl e \<Rightarrow> Inl e
      | Inr self' \<Rightarrow> check_queries self' rest)"

text \<open>
  The last loop runs over a Python \<open>set\<close>, whose order of iteration the language leaves open.
  The order is the parameter \<open>iter\<close>: a function that lists a set. \<open>lists_sets iter\<close> says
  what every Python iteration does: each element of the set comes exactly once.
\<close>

definition lists_sets :: "(string set \<Rightarrow> string list) \<Rightarrow> bool" where
  "lists_sets iter \<longleftrightarrow> (\<forall>S. finite S \<longrightarrow> set (iter S) = S \<and> distinct (iter S))"

definition append_missing :: "(string set \<Rightarrow> string list) \<Rightarrow> checker \<Rightarrow> checker" where
  "append_missing iter self =
     self\<lparr>messages := messages self @
             map MissingPrimaryKey (iter (no_primary_key_table_names self))\<rparr>"

definition check_ddl_syntax :: "(string set \<Rightarrow> string list) \<Rightarrow> checker \<Rightarrow> error + checker" where
  "check_ddl_syntax iter self =
     (case check_queries self (queries (ddl self)) of
        Inl e \<Rightarrow> Inl e
      | Inr self' \<Rightarrow> Inr (append_missing iter self'))"

text \<open>
  The kind of a statement, as the chain of tests of \<open>check_query\<close> decides it.
\<close>

datatype kind =
  CreateTable | CreateIndex | CreateUniqueIndex | AlterTableAddConstraint | Unrecognized

definition statement_kind :: "string \<Rightarrow> kind" where
  "statement_kind query =
     (if prefix ''CREATE TABLE'' query then CreateTable
      else if prefix ''CREATE INDEX'' query then CreateIndex
      else if prefix ''CREATE UNIQUE INDEX'' query then CreateUniqueIndex
      else if re_match alter_pattern query \<noteq> None then AlterTableAddConstraint
      else Unrecognized)"

section \<open>The execution phase\<close>

text \<open>
  \<open>str.lower()\<close> on the code points below 256: the letters \<open>A\<close> to \<open>Z\<close> and the capital
  letters of the upper half (\<open>0xC0\<close> to \<open>0xDE\<close> without the multiplication sign \<open>0xD7\<close>)
  move up by 32.
\<close>

definition lower_char :: "char \<Rightarrow> char" where
  "lower_char c =
     (let n = (of_char c :: nat) in
      if (65 \<le> n \<and> n \<le> 90) \<or> (192 \<le> n \<and> n \<le> 222 \<and> n \<noteq> 215)
      then char_of (n + 32) else c)"

definition lower :: "string \<Rightarrow> string" where
  "lower s = map lower_char s"

text \<open>
  The pattern of the one engine failure the source translates:
  \<open>primary key constraint on table \".+\" lacks column \".+\" which is part of the partition key.\<close>
\<close>

definition partition_pattern :: "re_item list" where
  "partition_pattern =
     [Lit (''primary key constraint on table '' @ [dquote]), Plus is_dot,
      Lit ([dquote] @ '' lacks column '' @ [dquote]), Plus is_dot,
      Lit ([dquote] @ '' which is part of the partition key''), One is_dot]"

definition parse_partition_error_text :: "checker \<Rightarrow> string \<Rightarrow> error + checker" where
  "parse_partition_error_text self partition_error_text =
     (let lines = split_ws partition_error_text in
      case index lines 5 of
        Inl e \<Rightarrow> Inl e
      | Inr table_name \<Rightarrow>
          (case index lines 8 of
             Inl e \<Rightarrow> Inl e
           | Inr partition_column_name \<Rightarrow>
               Inr (append_message (PartitionKey table_name partition_column_name) self)))"

text \<open>
  The \<open>else\<close> branch of the handler in \<open>_execute_ddl\<close>, for a failure that is not an
  \<open>OperationalError\<close>: \<open>text\<close> is \<open>str(original_error)\<close>.
\<close>

definition handle_failure_text :: "checker \<Rightarrow> string \<Rightarrow> error + checker" where
  "handle_failure_text self text =
     (let original_error_text = lower text in
      case re_search partition_pattern original_error_text of
        Some matched \<Rightarrow> parse_partition_error_text self matched
      | None \<Rightarrow> Inr (append_message (RawError original_error_text) self))"

text \<open>
  What the container and the engine do is the input of the model. A reload of the container
  shows its port settings (\<open>None\<close> when the attributes have no list for \<open>5432/tcp\<close>), each a
  pair of \<open>HostIp\<close> and the number \<open>HostPort\<close> reads as. A turn of the second loop connects
  and executes the DDL: it succeeds, or raises an exception whose \<open>orig\<close> is an
  \<open>OperationalError\<close>, or one with another \<open>orig\<close> of the given text, or one without \<open>orig\<close>.
\<close>

type_synonym port_settings = "(string \<times> nat) list option"

datatype attempt =
  Executed | RaisedOperational | RaisedOther string | RaisedWithoutOrig

record world =
  reloads :: "port_settings list"
  attempts :: "attempt list"

definition bound_port :: "port_settings \<Rightarrow> nat" where
  "bound_port attrs =
     (case attrs of
        None \<Rightarrow> 0
      | Some settings \<Rightarrow>
          fold (\<lambda>(host_ip, host_port) bind_port.
                  if host_ip = ''0.0.0.0'' then host_port else bind_port) settings 0)"

text \<open>
  Both loops are \<open>while True\<close> with a sleep: they end only when the world lets them.
  \<open>None\<close> is a loop that is still polling when the observations of the world are used up.
\<close>

fun wait_for_port :: "port_settings list \<Rightarrow> nat option" where
  "wait_for_port [] = None"
| "wait_for_port (attrs # rest) =
     (if bound_port attrs \<noteq> 0 then Some (bound_port attrs) else wait_for_port rest)"

fun execute_loop :: "checker \<Rightarrow> attempt list \<Rightarrow> (error + checker) option" where
  "execute_loop self [] = None"
| "execute_loop self (Executed # rest) = Some (Inr self)"
| "execute_loop self (RaisedWithoutOrig # rest) = Some (Inl AttributeError)"
| "execute_loop self (RaisedOperational # rest) = execute_loop self rest"
| "execute_loop self (RaisedOther text # rest) = Some (handle_failure_text self text)"

definition execute_ddl :: "world \<Rightarrow> checker \<Rightarrow> (error + checker) option" where
  "execute_ddl w self =
     (case wait_for_port (reloads w) of
        None \<Rightarrow> None
      | Some bind_port \<Rightarrow> execute_loop self (attempts w))"

definition check_ddl ::
  "(string set \<Rightarrow> string list) \<Rightarrow> world \<Rightarrow> string \<Rightarrow> (error + message list) option" where
  "check_ddl iter w d =
     (case check_ddl_syntax iter (init d) of
        Inl e \<Rightarrow> Some (Inl e)
      | Inr self1 \<Rightarrow>
          (case execute_ddl w self1 of
             None \<Rightarrow> None
           | Some (Inl e) \<Rightarrow> Some (Inl e)
           | Some (Inr self2) \<Rightarrow> Some (Inr (messages self2))))"

section \<open>Notions used by the properties\<close>

text \<open>
  The diagnostics \<open>_check_alter_table_add_constraint_query\<close> appends for the constraint
  identifier, before it looks at the constraint kind.
\<close>

definition identifier_messages :: "string \<Rightarrow> message list" where
  "identifier_messages identifier =
     (if mixes_upper_lower identifier \<and>
         \<not> (hd identifier = dquote \<and> last identifier = dquote)
      then [IdentifierMixedCase identifier] else []) @
     (if 63 < length (filter (\<lambda>c. c \<noteq> dquote) identifier)
      then [IdentifierTooLong identifier (length identifier)] else [])"

text \<open>
  A \<open>CREATE TABLE\<close> statement without the phrase \<open>PRIMARY KEY\<close> whose third token is the
  table name, and an \<open>ALTER TABLE ... ADD CONSTRAINT\<close> statement for that table whose
  seventh and eighth tokens are \<open>PRIMARY\<close> and \<open>KEY\<close>.
\<close>

definition declares_without_key :: "string \<Rightarrow> string \<Rightarrow> bool" where
  "declares_without_key table_name query \<longleftrightarrow>
     statement_kind query = CreateTable \<and> \<not> contains ''PRIMARY KEY'' query \<and>
     index (split_ws query) 2 = Inr table_name"

definition adds_primary_key :: "string \<Rightarrow> string \<Rightarrow> bool" where
  "adds_primary_key table_name query \<longleftrightarrow>
     statement_kind query = AlterTableAddConstraint \<and>
     index (split_ws query) 2 = Inr table_name \<and>
     index (split_ws query) 6 = Inr ''PRIMARY'' \<and>
     index (split_ws query) 7 = Inr ''KEY''"

section \<open>Evaluation and the effect of each checker\<close>

lemmas eval_defs = check_ddl_syntax_def queries_def check_query_def check_create_table_query_def
  check_create_index_query_def check_alter_table_add_constraint_query_def
  split_ws_def is_space_def index_def init_def newline_def dquote_def re_match_def
  alter_pattern_def is_name_char_def is_lower_def is_upper_def is_digit_def is_dot_def
  check_mix_upper_lower_case_text_def mixes_upper_lower_def append_message_def
  statement_kind_def append_missing_def

lemma check_query_kind:
  "check_query self query =
     (case statement_kind query of
        CreateTable \<Rightarrow> check_create_table_query self query
      | CreateIndex \<Rightarrow> check_create_index_query self query False
      | CreateUniqueIndex \<Rightarrow> check_create_index_query self query True
      | AlterTableAddConstraint \<Rightarrow> check_alter_table_add_constraint_query self query
      | Unrecognized \<Rightarrow> Inr self)"
  by (simp add: check_query_def statement_kind_def)

lemma index_Inr_iff: "index xs i = Inr x \<longleftrightarrow> i < length xs \<and> xs ! i = x"
  by (auto simp: index_def)

lemma index_Inl_iff: "index xs i = Inl e \<longleftrightarrow> \<not> i < length xs \<and> e = IndexError"
  by (auto simp: index_def)

lemma mixes_nonempty: "mixes_upper_lower text \<Longrightarrow> text \<noteq> []"
  by (auto simp: mixes_upper_lower_def)

text \<open>The read of \<open>text[0]\<close> is never out of range: the pattern matches no empty text.\<close>

lemma check_mix_total:
  "check_mix_upper_lower_case_text text =
     Inr (\<not> (mixes_upper_lower text \<and> \<not> (hd text = dquote \<and> last text = dquote)))"
  by (cases "text")
    (auto simp: check_mix_upper_lower_case_text_def index_def dest: mixes_nonempty)

lemma check_create_table_query_eq:
  assumes "index (split_ws query) 2 = Inr table_name"
  shows "check_create_table_query self query =
     Inr (self\<lparr>no_primary_key_table_names :=
                 (if contains ''PRIMARY KEY'' query then no_primary_key_table_names self
                  else insert table_name (no_primary_key_table_names self)),
               messages := messages self @
                 (if 63 < length table_name then [TableNameTooLong table_name] else [])\<rparr>)"
  using assms by (simp add: check_create_table_query_def append_message_def)

lemma check_create_index_query_eq:
  assumes "index (split_ws query) (if is_unique then 3 else 2) = Inr index_name"
  shows "check_create_index_query self query is_unique =
     Inr (self\<lparr>messages := messages self @
                 (if mixes_upper_lower index_name \<and>
                     \<not> (hd index_name = dquote \<and> last index_name = dquote)
                  then [IndexMixedCase index_name] else []) @
                 (if 63 < length index_name then [IndexNameTooLong index_name] else [])\<rparr>)"
proof -
  from assms obtain third where "index (split_ws query) 2 = Inr third"
    by (auto simp: index_def split: if_splits)
  with assms show ?thesis
    by (cases is_unique)
      (simp_all add: check_create_index_query_def check_mix_total append_message_def)
qed

lemma check_alter_primary_key_eq:
  assumes "index (split_ws query) 2 = Inr table_name"
    and "index (split_ws query) 5 = Inr identifier"
    and "index (split_ws query) 6 = Inr ''PRIMARY''"
    and "index (split_ws query) 7 = Inr ''KEY''"
  shows "check_alter_table_add_constraint_query self query =
     Inr (if table_name \<in> no_primary_key_table_names self
          then self\<lparr>no_primary_key_table_names := no_primary_key_table_names self - {table_name},
                    messages := messages self @ identifier_messages identifier\<rparr>
          else self\<lparr>messages := messages self @ identifier_messages identifier @
                                 [AlterOrder table_name]\<rparr>)"
  using assms
  by (simp add: check_alter_table_add_constraint_query_def check_mix_total append_message_def
      identifier_messages_def Let_def)

lemma check_alter_other_eq:
  assumes "check_alter_table_add_constraint_query self query = Inr self'"
    and "\<not> (index (split_ws query) 6 = Inr ''PRIMARY'' \<and> index (split_ws query) 7 = Inr ''KEY'')"
  shows "\<exists>identifier. index (split_ws query) 5 = Inr identifier \<and>
           self' = self\<lparr>messages := messages self @ identifier_messages identifier\<rparr>"
  using assms
  by (auto simp: check_alter_table_add_constraint_query_def check_mix_total append_message_def
      identifier_messages_def Let_def split: sum.splits if_splits)

subsection \<open>The loop over the statements\<close>

lemma check_create_table_query_InrD:
  assumes "check_create_table_query self query = Inr self'"
  shows "\<exists>table_name. index (split_ws query) 2 = Inr table_name"
  using assms
  by (cases "index (split_ws query) 2") (simp_all add: check_create_table_query_def Let_def)

lemma check_create_index_query_InrD:
  assumes "check_create_index_query self query is_unique = Inr self'"
  shows "\<exists>index_name. index (split_ws query) (if is_unique then 3 else 2) = Inr index_name"
  using assms
  by (cases "index (split_ws query) 2"; cases "index (split_ws query) 3"; cases is_unique)
    (simp_all add: check_create_index_query_def Let_def)

lemma check_alter_InrD:
  assumes "check_alter_table_add_constraint_query self query = Inr self'"
  shows "\<exists>table_name identifier. index (split_ws query) 2 = Inr table_name \<and>
           index (split_ws query) 5 = Inr identifier"
  using assms
  by (cases "index (split_ws query) 2"; cases "index (split_ws query) 5")
    (simp_all add: check_alter_table_add_constraint_query_def Let_def)

lemma check_query_pending:
  assumes "check_query self query = Inr self'"
  shows "no_primary_key_table_names self' =
     {t. (t \<in> no_primary_key_table_names self \<and> \<not> adds_primary_key t query) \<or>
         declares_without_key t query}"
proof (cases "statement_kind query")
  case CreateTable
  with assms have run: "check_create_table_query self query = Inr self'"
    by (simp add: check_query_kind)
  then obtain table_name where "index (split_ws query) 2 = Inr table_name"
    using check_create_table_query_InrD by blast
  with run CreateTable show ?thesis
    by (auto simp: check_create_table_query_eq adds_primary_key_def declares_without_key_def
        split: if_splits)
next
  case CreateIndex
  with assms have run: "check_create_index_query self query False = Inr self'"
    by (simp add: check_query_kind)
  then obtain index_name where "index (split_ws query) (if False then 3 else 2) = Inr index_name"
    using check_create_index_query_InrD by blast
  with run CreateIndex show ?thesis
    by (auto simp: check_create_index_query_eq adds_primary_key_def declares_without_key_def)
next
  case CreateUniqueIndex
  with assms have run: "check_create_index_query self query True = Inr self'"
    by (simp add: check_query_kind)
  then obtain index_name where "index (split_ws query) (if True then 3 else 2) = Inr index_name"
    using check_create_index_query_InrD by blast
  with run CreateUniqueIndex show ?thesis
    by (auto simp: check_create_index_query_eq adds_primary_key_def declares_without_key_def)
next
  case AlterTableAddConstraint
  with assms have run: "check_alter_table_add_constraint_query self query = Inr self'"
    by (simp add: check_query_kind)
  then obtain table_name ident where reads: "index (split_ws query) 2 = Inr table_name"
    "index (split_ws query) 5 = Inr ident"
    using check_alter_InrD by blast
  show ?thesis
  proof (cases "index (split_ws query) 6 = Inr ''PRIMARY'' \<and> index (split_ws query) 7 = Inr ''KEY''")
    case True
    with run reads AlterTableAddConstraint show ?thesis
      by (auto simp: check_alter_primary_key_eq adds_primary_key_def declares_without_key_def
          split: if_splits)
  next
    case False
    with run obtain ident' where "self' = self\<lparr>messages := messages self @ identifier_messages ident'\<rparr>"
      using check_alter_other_eq by blast
    with False AlterTableAddConstraint show ?thesis
      by (auto simp: adds_primary_key_def declares_without_key_def)
  qed
next
  case Unrecognized
  with assms show ?thesis
    by (auto simp: check_query_kind adds_primary_key_def declares_without_key_def)
qed

lemma identifier_messages_no_missing: "MissingPrimaryKey t \<notin> set (identifier_messages identifier)"
  by (simp add: identifier_messages_def)

lemma check_query_messages:
  assumes "check_query self query = Inr self'"
  shows "\<exists>new. messages self' = messages self @ new \<and> (\<forall>t. MissingPrimaryKey t \<notin> set new)"
proof (cases "statement_kind query")
  case CreateTable
  with assms have run: "check_create_table_query self query = Inr self'"
    by (simp add: check_query_kind)
  then obtain table_name where "index (split_ws query) 2 = Inr table_name"
    using check_create_table_query_InrD by blast
  with run show ?thesis
    by (auto simp: check_create_table_query_eq)
next
  case CreateIndex
  with assms have run: "check_create_index_query self query False = Inr self'"
    by (simp add: check_query_kind)
  then obtain index_name where "index (split_ws query) (if False then 3 else 2) = Inr index_name"
    using check_create_index_query_InrD by blast
  with run show ?thesis
    by (auto simp: check_create_index_query_eq)
next
  case CreateUniqueIndex
  with assms have run: "check_create_index_query self query True = Inr self'"
    by (simp add: check_query_kind)
  then obtain index_name where "index (split_ws query) (if True then 3 else 2) = Inr index_name"
    using check_create_index_query_InrD by blast
  with run show ?thesis
    by (auto simp: check_create_index_query_eq)
next
  case AlterTableAddConstraint
  with assms have run: "check_alter_table_add_constraint_query self query = Inr self'"
    by (simp add: check_query_kind)
  then obtain table_name ident where reads: "index (split_ws query) 2 = Inr table_name"
    "index (split_ws query) 5 = Inr ident"
    using check_alter_InrD by blast
  show ?thesis
  proof (cases "index (split_ws query) 6 = Inr ''PRIMARY'' \<and> index (split_ws query) 7 = Inr ''KEY''")
    case True
    with run reads show ?thesis
      by (auto simp: check_alter_primary_key_eq identifier_messages_no_missing split: if_splits)
  next
    case False
    with run obtain ident' where "self' = self\<lparr>messages := messages self @ identifier_messages ident'\<rparr>"
      using check_alter_other_eq by blast
    then show ?thesis
      by (auto simp: identifier_messages_no_missing)
  qed
next
  case Unrecognized
  with assms show ?thesis
    by (auto simp: check_query_kind)
qed

lemma declares_without_key_unique:
  "declares_without_key t query \<Longrightarrow> declares_without_key t' query \<Longrightarrow> t = t'"
  by (simp add: declares_without_key_def)

lemma check_query_finite:
  assumes "check_query self query = Inr self'" and "finite (no_primary_key_table_names self)"
  shows "finite (no_primary_key_table_names self')"
proof -
  have "{t. declares_without_key t query} \<subseteq> {split_ws query ! 2}"
    by (auto simp: declares_without_key_def index_Inr_iff)
  then have "finite {t. declares_without_key t query}"
    by (rule finite_subset) simp
  moreover have "no_primary_key_table_names self' \<subseteq>
      no_primary_key_table_names self \<union> {t. declares_without_key t query}"
    using check_query_pending [OF assms(1)] by auto
  ultimately show ?thesis
    using assms(2) by (meson finite_UnI finite_subset)
qed

lemma check_queries_append:
  "check_queries self (qs1 @ qs2) = Inr s \<longleftrightarrow>
     (\<exists>s1. check_queries self qs1 = Inr s1 \<and> check_queries s1 qs2 = Inr s)"
  by (induction qs1 arbitrary: self) (auto split: sum.splits)

lemma check_queries_messages:
  "check_queries self qs = Inr s \<Longrightarrow>
     \<exists>new. messages s = messages self @ new \<and> (\<forall>t. MissingPrimaryKey t \<notin> set new)"
proof (induction qs arbitrary: self)
  case Nil
  then show ?case by simp
next
  case (Cons q qs)
  then obtain s1 where step: "check_query self q = Inr s1" and rest: "check_queries s1 qs = Inr s"
    by (auto split: sum.splits)
  from check_query_messages [OF step] obtain new1 where
    new1: "messages s1 = messages self @ new1" "\<forall>t. MissingPrimaryKey t \<notin> set new1"
    by blast
  from Cons.IH [OF rest] obtain new2 where
    new2: "messages s = messages s1 @ new2" "\<forall>t. MissingPrimaryKey t \<notin> set new2"
    by blast
  from new1 new2 have "messages s = messages self @ (new1 @ new2)"
    "\<forall>t. MissingPrimaryKey t \<notin> set (new1 @ new2)"
    by auto
  then show ?case by blast
qed

lemma check_queries_finite:
  "check_queries self qs = Inr s \<Longrightarrow> finite (no_primary_key_table_names self) \<Longrightarrow>
     finite (no_primary_key_table_names s)"
  by (induction qs arbitrary: self) (auto split: sum.splits dest: check_query_finite)

lemma check_queries_keeps:
  "check_queries self qs = Inr s \<Longrightarrow> t \<in> no_primary_key_table_names self \<Longrightarrow>
     \<forall>q \<in> set qs. \<not> adds_primary_key t q \<Longrightarrow> t \<in> no_primary_key_table_names s"
proof (induction qs arbitrary: self)
  case Nil
  then show ?case by simp
next
  case (Cons q qs)
  then obtain s1 where step: "check_query self q = Inr s1" and rest: "check_queries s1 qs = Inr s"
    by (auto split: sum.splits)
  from check_query_pending [OF step] Cons.prems have "t \<in> no_primary_key_table_names s1"
    by simp
  with Cons.IH [OF rest] Cons.prems show ?case
    by simp
qed

lemma check_queries_declared:
  assumes run: "check_queries self qs = Inr s"
    and i: "i < length qs"
    and decl: "declares_without_key t (qs ! i)"
    and later: "\<forall>j. i < j \<and> j < length qs \<longrightarrow> \<not> adds_primary_key t (qs ! j)"
  shows "t \<in> no_primary_key_table_names s"
proof -
  from i have "qs = take i qs @ qs ! i # drop (Suc i) qs"
    by (rule id_take_nth_drop)
  with run have "check_queries self (take i qs @ qs ! i # drop (Suc i) qs) = Inr s"
    by simp
  then obtain s1 where "check_queries s1 (qs ! i # drop (Suc i) qs) = Inr s"
    unfolding check_queries_append by blast
  then obtain s2 where step: "check_query s1 (qs ! i) = Inr s2"
    and rest: "check_queries s2 (drop (Suc i) qs) = Inr s"
    by (auto split: sum.splits)
  from check_query_pending [OF step] decl have "t \<in> no_primary_key_table_names s2"
    by simp
  moreover have "\<forall>q \<in> set (drop (Suc i) qs). \<not> adds_primary_key t q"
    using later by (auto simp: in_set_conv_nth)
  ultimately show ?thesis
    using check_queries_keeps [OF rest] by blast
qed

lemma count_list_absent: "x \<notin> set xs \<Longrightarrow> count_list xs x = 0"
  by (simp add: count_list_0_iff)

lemma count_list_missing:
  "distinct ts \<Longrightarrow>
     count_list (map MissingPrimaryKey ts) (MissingPrimaryKey t) = (if t \<in> set ts then 1 else 0)"
  by (induction ts) auto

subsection \<open>Listing the set\<close>

lemma lists_sets_sorted: "lists_sets sorted_list_of_set"
  by (simp add: lists_sets_def)

lemma lists_sets_empty:
  assumes "lists_sets iter"
  shows "iter {} = []"
proof -
  from assms have "set (iter {}) = {}"
    by (simp add: lists_sets_def)
  then show ?thesis
    by simp
qed

lemma lists_sets_singleton:
  assumes "lists_sets iter"
  shows "iter {x} = [x]"
proof -
  from assms have "set (iter {x}) = {x}" and "distinct (iter {x})"
    by (simp_all add: lists_sets_def)
  then obtain ys where ys: "iter {x} = x # ys" "set ys \<subseteq> {x}" "x \<notin> set ys"
    by (cases "iter {x}") auto
  then have "ys = []"
    by (cases ys) auto
  with ys show ?thesis
    by simp
qed

lemma count_list_lists_sets:
  assumes "lists_sets iter" and "finite S"
  shows "count_list (map MissingPrimaryKey (iter S)) (MissingPrimaryKey t) =
           (if t \<in> S then 1 else 0)"
  using assms by (simp add: lists_sets_def count_list_missing)

subsection \<open>Tokens\<close>





subsection \<open>What the \<open>ALTER TABLE\<close> pattern accepts\<close>

lemma re_plus_sound:
  "re_plus p r s = Some m \<Longrightarrow>
     \<exists>n s'. s = n @ s' \<and> n \<noteq> [] \<and> (\<forall>c \<in> set n. p c) \<and> re_here r s' \<noteq> None"
proof (induction s arbitrary: m)
  case Nil
  then show ?case by simp
next
  case (Cons c s)
  from Cons.prems have pc: "p c"
    by (simp split: if_splits)
  show ?case
  proof (cases "re_plus p r s")
    case None
    with Cons.prems pc have "re_here r s \<noteq> None"
      by auto
    with pc have "c # s = [c] @ s \<and> [c] \<noteq> [] \<and> (\<forall>x \<in> set [c]. p x) \<and> re_here r s \<noteq> None"
      by simp
    then show ?thesis by blast
  next
    case (Some m')
    from Cons.IH [OF Some] obtain n s' where
      "s = n @ s'" "n \<noteq> []" "\<forall>x \<in> set n. p x" "re_here r s' \<noteq> None"
      by blast
    with pc have "c # s = (c # n) @ s' \<and> c # n \<noteq> [] \<and> (\<forall>x \<in> set (c # n). p x) \<and>
        re_here r s' \<noteq> None"
      by simp
    then show ?thesis by blast
  qed
qed

lemma re_lit_sound:
  assumes "re_here (Lit l # r) s \<noteq> None"
  shows "\<exists>s'. s = l @ s' \<and> re_here r s' \<noteq> None"
proof -
  from assms have pre: "prefix l s" and rest: "re_here r (drop (length l) s) \<noteq> None"
    by (auto split: if_splits)
  from pre obtain s' where "s = l @ s'"
    by (auto simp: prefix_def)
  with rest show ?thesis
    by auto
qed

lemma alter_match_shape:
  assumes "re_match alter_pattern query \<noteq> None"
  shows "\<exists>n rest. query = ''ALTER TABLE '' @ n @ '' ADD CONSTRAINT'' @ rest \<and> n \<noteq> [] \<and>
           (\<forall>c \<in> set n. is_name_char c)"
proof -
  from assms have "re_here (Lit ''ALTER TABLE '' # [Plus is_name_char, Lit '' ADD CONSTRAINT'']) query
      \<noteq> None"
    by (simp add: re_match_def alter_pattern_def)
  then obtain s1 where s1: "query = ''ALTER TABLE '' @ s1"
    and "re_here [Plus is_name_char, Lit '' ADD CONSTRAINT''] s1 \<noteq> None"
    using re_lit_sound by blast
  then obtain m where "re_plus is_name_char [Lit '' ADD CONSTRAINT''] s1 = Some m"
    by auto
  from re_plus_sound [OF this] obtain n s2 where n: "s1 = n @ s2" "n \<noteq> []"
    "\<forall>c \<in> set n. is_name_char c" and "re_here (Lit '' ADD CONSTRAINT'' # []) s2 \<noteq> None"
    by blast
  then obtain rest where "s2 = '' ADD CONSTRAINT'' @ rest"
    using re_lit_sound by blast
  with s1 n show ?thesis
    by blast
qed

lemma name_char_not_space: "is_name_char c \<Longrightarrow> \<not> is_space c"
  by (auto simp: is_space_def is_name_char_def is_lower_def is_digit_def)

lemma split_run_token:
  "\<forall>c \<in> set n. \<not> is_space c \<Longrightarrow> split_run cur (n @ s) = split_run (cur @ n) s"
  by (induction n arbitrary: cur) simp_all

lemma alter_third_token:
  assumes "n \<noteq> []" and "\<forall>c \<in> set n. is_name_char c"
  shows "index (split_ws (''ALTER TABLE '' @ n @ '' ADD CONSTRAINT'' @ rest)) 2 = Inr n"
proof -
  from assms(2) have "\<forall>c \<in> set n. \<not> is_space c"
    using name_char_not_space by blast
  then have "split_run [] (n @ '' ADD CONSTRAINT'' @ rest) =
      split_run n ('' ADD CONSTRAINT'' @ rest)"
    using split_run_token [of n "[]"] by simp
  also have "\<dots> = n # split_run [] (''ADD CONSTRAINT'' @ rest)"
    using assms(1) by (simp add: is_space_def)
  finally have "split_ws (''ALTER TABLE '' @ n @ '' ADD CONSTRAINT'' @ rest) =
      ''ALTER'' # ''TABLE'' # n # split_run [] (''ADD CONSTRAINT'' @ rest)"
    by (simp add: split_ws_def is_space_def)
  then show ?thesis
    by (simp add: index_def)
qed

lemma adds_primary_key_name_chars:
  assumes "adds_primary_key t query"
  shows "\<forall>c \<in> set t. is_name_char c"
proof -
  from assms have "re_match alter_pattern query \<noteq> None"
    by (auto simp: adds_primary_key_def statement_kind_def split: if_splits)
  from alter_match_shape [OF this] obtain n rest where
    shape: "query = ''ALTER TABLE '' @ n @ '' ADD CONSTRAINT'' @ rest" "n \<noteq> []"
    "\<forall>c \<in> set n. is_name_char c"
    by blast
  then have "index (split_ws query) 2 = Inr n"
    using alter_third_token by simp
  with assms have "t = n"
    by (simp add: adds_primary_key_def)
  with shape show ?thesis
    by simp
qed

lemma append_separator_eq:
  "x \<notin> set xs \<Longrightarrow> x \<notin> set ys \<Longrightarrow> xs @ x # a = ys @ x # b \<Longrightarrow> xs = ys"
proof (induction xs arbitrary: ys)
  case Nil
  then show ?case by (cases ys) auto
next
  case (Cons c xs)
  then show ?case by (cases ys) auto
qed

lemma space_not_name_char: "\<not> is_name_char CHR '' ''"
  by (simp add: is_name_char_def is_lower_def is_digit_def)

lemma alter_other_name_unrecognized:
  assumes "CHR '' '' \<notin> set name" and "\<exists>c \<in> set name. \<not> is_name_char c"
  shows "statement_kind (''ALTER TABLE '' @ name @ '' ADD CONSTRAINT'' @ rest) = Unrecognized"
proof -
  let ?q = "''ALTER TABLE '' @ name @ '' ADD CONSTRAINT'' @ rest"
  have "re_match alter_pattern ?q = None"
  proof (rule ccontr)
    assume "re_match alter_pattern ?q \<noteq> None"
    from alter_match_shape [OF this] obtain n rest' where
      eq: "?q = ''ALTER TABLE '' @ n @ '' ADD CONSTRAINT'' @ rest'"
      and n: "\<forall>c \<in> set n. is_name_char c"
      by blast
    from n have nsp: "CHR '' '' \<notin> set n"
      using space_not_name_char by blast
    from eq have eq': "name @ CHR '' '' # (''ADD CONSTRAINT'' @ rest) =
        n @ CHR '' '' # (''ADD CONSTRAINT'' @ rest')"
      by simp
    from assms(1) nsp eq' have "name = n"
      by (rule append_separator_eq)
    with n assms(2) show False
      by blast
  qed
  then show ?thesis
    by (simp add: statement_kind_def)
qed

lemma count_missing_after_loop:
  assumes "lists_sets iter" and "check_queries (init d) (queries d) = Inr self'"
  shows "count_list (messages (append_missing iter self')) (MissingPrimaryKey t) =
       (if t \<in> no_primary_key_table_names self' then 1 else 0)"
proof -
  have "finite (no_primary_key_table_names (init d))"
    by (simp add: init_def)
  with assms(2) have fin: "finite (no_primary_key_table_names self')"
    by (rule check_queries_finite)
  from check_queries_messages [OF assms(2)] obtain new where
    "messages self' = new" "\<forall>t. MissingPrimaryKey t \<notin> set new"
    by (auto simp: init_def)
  then show ?thesis
    using count_list_lists_sets [OF assms(1) fin]
    by (simp add: append_missing_def)
qed

subsection \<open>The splitter\<close>

lemma split_on_nonempty: "split_on sep s \<noteq> []"
  by (induction s) (auto split: list.splits)

lemma split_on_join: "concat (map ((#) sep) (split_on sep s)) = sep # s"
proof (induction s)
  case Nil
  then show ?case by simp
next
  case (Cons c s)
  then show ?case
    by (cases "split_on sep s") (auto simp: split_on_nonempty)
qed

lemma split_on_no_sep: "p \<in> set (split_on sep s) \<Longrightarrow> sep \<notin> set p"
proof (induction s arbitrary: p)
  case Nil
  then show ?case by simp
next
  case (Cons c s)
  then show ?case
    by (cases "split_on sep s") (auto split: if_splits)
qed

lemma remove_double_newlines_filter:
  "filter (\<lambda>c. c \<noteq> newline) (remove_double_newlines s) = filter (\<lambda>c. c \<noteq> newline) s"
  by (induction s rule: remove_double_newlines.induct) auto

lemma remove_double_newlines_head:
  "b \<noteq> newline \<Longrightarrow> \<exists>r. remove_double_newlines (b # rest) = b # r"
  by (cases rest) auto

lemma remove_double_newlines_no_pair:
  "\<not> contains [newline, newline] (remove_double_newlines s)"
proof (induction s rule: remove_double_newlines.induct)
  case (1 a b rest)
  show ?case
  proof (cases "a = newline \<and> b = newline")
    case True
    with 1 show ?thesis by simp
  next
    case False
    with 1 have rest: "\<not> contains [newline, newline] (remove_double_newlines (b # rest))"
      by simp
    have "\<not> prefix [newline, newline] (a # remove_double_newlines (b # rest))"
    proof (cases "a = newline")
      case True
      with False have "b \<noteq> newline" by simp
      then obtain r where "remove_double_newlines (b # rest) = b # r"
        using remove_double_newlines_head by blast
      with \<open>b \<noteq> newline\<close> show ?thesis by simp
    next
      case False
      then show ?thesis by simp
    qed
    with rest False show ?thesis by auto
  qed
next
  case (2 a)
  then show ?case by simp
next
  case 3
  then show ?case by simp
qed

lemma remove_double_newlines_id:
  "\<not> contains [newline, newline] s \<Longrightarrow> remove_double_newlines s = s"
  by (induction s rule: remove_double_newlines.induct) auto

lemma unrecognized_skipped:
  "statement_kind query = Unrecognized \<Longrightarrow> check_query self query = Inr self"
  by (simp add: check_query_kind)

lemma leading_space_unrecognized:
  "is_space c \<Longrightarrow> statement_kind (c # query) = Unrecognized"
  by (auto simp: statement_kind_def re_match_def alter_pattern_def is_space_def)

lemma empty_unrecognized: "statement_kind [] = Unrecognized"
  by (simp add: statement_kind_def re_match_def alter_pattern_def)

subsection \<open>The order of the diagnostics\<close>






subsection \<open>What the length rule and the fallback do on every input\<close>

text \<open>
  The length rule of tables and indexes compares the length of the token as it stands,
  and the fallback of the execution phase appends the lowered text.
\<close>

lemma table_name_length_rule:
  assumes "statement_kind query = CreateTable"
    and "index (split_ws query) 2 = Inr table_name"
    and "check_query self query = Inr self'"
  shows "messages self' = messages self @
           (if 63 < length table_name then [TableNameTooLong table_name] else [])"
  using assms by (auto simp: check_query_kind check_create_table_query_eq)

lemma index_name_length_rule:
  assumes "statement_kind query = CreateIndex"
    and "index (split_ws query) 2 = Inr index_name"
    and "check_query self query = Inr self'"
  shows "IndexNameTooLong index_name \<in> set (drop (length (messages self)) (messages self'))
           \<longleftrightarrow> 63 < length index_name"
proof -
  from assms(2) have "index (split_ws query) (if False then 3 else 2) = Inr index_name"
    by simp
  from check_create_index_query_eq [OF this, of self] assms(1,3) show ?thesis
    by (auto simp: check_query_kind)
qed

lemma unmatched_failure_text:
  assumes "re_search partition_pattern (lower text) = None"
  shows "handle_failure_text self text = Inr (append_message (RawError (lower text)) self)"
  using assms by (simp add: handle_failure_text_def Let_def)

subsection \<open>The leftmost pair of line feeds\<close>

text \<open>
  A text \<open>u\<close> followed by a line feed holds no pair of line feeds exactly when \<open>u\<close> holds
  none and does not end in a line feed: then the pair that follows \<open>u\<close> is the leftmost one.
\<close>

lemma remove_double_newlines_leftmost:
  "\<not> contains [newline, newline] (u @ [newline]) \<Longrightarrow>
     remove_double_newlines (u @ [newline, newline] @ v) = u @ remove_double_newlines v"
  by (induction u rule: remove_double_newlines.induct) auto

lemma leftmost_pair:
  "contains [newline, newline] s \<Longrightarrow>
     \<exists>u v. s = u @ [newline, newline] @ v \<and> \<not> contains [newline, newline] (u @ [newline])"
proof (induction s)
  case Nil
  then show ?case by simp
next
  case (Cons c cs)
  show ?case
  proof (cases "prefix [newline, newline] (c # cs)")
    case True
    then obtain v where "c # cs = [] @ [newline, newline] @ v"
      by (auto simp: prefix_def)
    moreover have "\<not> contains [newline, newline] ([] @ [newline])"
      by simp
    ultimately show ?thesis
      by blast
  next
    case False
    with Cons.prems have "contains [newline, newline] cs"
      by auto
    from Cons.IH [OF this] obtain u v where
      cs: "cs = u @ [newline, newline] @ v" and u: "\<not> contains [newline, newline] (u @ [newline])"
      by blast
    have "\<not> prefix [newline, newline] (c # u @ [newline])"
    proof
      assume "prefix [newline, newline] (c # u @ [newline])"
      then have "c = newline" and "prefix [newline] (u @ [newline])"
        by simp_all
      then have "prefix [newline] cs"
        unfolding cs by (cases u) auto
      with \<open>c = newline\<close> False show False
        by simp
    qed
    with u have "\<not> contains [newline, newline] ((c # u) @ [newline])"
      by simp
    moreover from cs have "c # cs = (c # u) @ [newline, newline] @ v"
      by simp
    ultimately show ?thesis
      by blast
  qed
qed

text \<open>
  The two equations fix the function: whatever leaves a text without pair as it is and
  removes the leftmost pair before going on with the rest is \<open>remove_double_newlines\<close>.
\<close>

lemma remove_double_newlines_unique:
  assumes keep: "\<And>s. \<not> contains [newline, newline] s \<Longrightarrow> f s = s"
    and cut: "\<And>u v. \<not> contains [newline, newline] (u @ [newline]) \<Longrightarrow>
      f (u @ [newline, newline] @ v) = u @ f v"
  shows "f d = remove_double_newlines d"
proof (induction d rule: length_induct)
  case (1 d)
  show ?case
  proof (cases "contains [newline, newline] d")
    case False
    then show ?thesis
      by (simp add: keep remove_double_newlines_id)
  next
    case True
    from leftmost_pair [OF this] obtain u v where
      d: "d = u @ [newline, newline] @ v" and u: "\<not> contains [newline, newline] (u @ [newline])"
      by blast
    from d have "length v < length d"
      by simp
    with 1 have "f v = remove_double_newlines v"
      by blast
    with cut [OF u] remove_double_newlines_leftmost [OF u] show ?thesis
      unfolding d by simp
  qed
qed

section \<open>Properties of the checker\<close>

subsection \<open>The pending set\<close>

text \<open>
  C3. A statement that starts with \<open>CREATE TABLE\<close> and has a third token leaves the set of
  tables without primary key as it was when the phrase \<open>PRIMARY KEY\<close> occurs in it, and
  adds its third token otherwise. For the document
  \<open>CREATE TABLE t (id int, PRIMARY KEY (id));\<close> the set is empty before and after each of
  the two statements the document splits into.
\<close>

theorem create_table_pending_insertion:
  "(statement_kind query = CreateTable \<and> index (split_ws query) 2 = Inr table_name \<longrightarrow>
      (\<exists>self'. check_query self query = Inr self' \<and>
         no_primary_key_table_names self' =
           (if contains ''PRIMARY KEY'' query then no_primary_key_table_names self
            else insert table_name (no_primary_key_table_names self)))) \<and>
   queries ''CREATE TABLE t (id int, PRIMARY KEY (id));'' =
     [''CREATE TABLE t (id int, PRIMARY KEY (id))'', ''''] \<and>
   check_query (init d) ''CREATE TABLE t (id int, PRIMARY KEY (id))'' = Inr (init d) \<and>
   check_query (init d) '''' = Inr (init d) \<and>
   no_primary_key_table_names (init d) = {}"
proof -
  have general:
    "statement_kind query = CreateTable \<and> index (split_ws query) 2 = Inr table_name \<longrightarrow>
      (\<exists>self'. check_query self query = Inr self' \<and>
         no_primary_key_table_names self' =
           (if contains ''PRIMARY KEY'' query then no_primary_key_table_names self
            else insert table_name (no_primary_key_table_names self)))"
    by (simp add: check_query_kind check_create_table_query_eq)
  have pieces: "queries ''CREATE TABLE t (id int, PRIMARY KEY (id));'' =
     [''CREATE TABLE t (id int, PRIMARY KEY (id))'', '''']"
    by (simp add: eval_defs)
  have first: "check_query (init d) ''CREATE TABLE t (id int, PRIMARY KEY (id))'' = Inr (init d)"
    by (simp add: eval_defs)
  have second: "check_query (init d) '''' = Inr (init d)"
    by (simp add: eval_defs)
  have "no_primary_key_table_names (init d) = {}"
    by (simp add: init_def)
  with general pieces first second show ?thesis
    by blast
qed

theorem create_table_pending_insertion_witness:
  "statement_kind ''CREATE TABLE t (id int)'' = CreateTable \<and>
   index (split_ws ''CREATE TABLE t (id int)'') 2 = Inr ''t'' \<and>
   (\<exists>self'. check_query (init ''CREATE TABLE t (id int)'') ''CREATE TABLE t (id int)'' = Inr self' \<and>
      no_primary_key_table_names self' = {''t''})"
proof -
  have kind: "statement_kind ''CREATE TABLE t (id int)'' = CreateTable"
    by (simp add: eval_defs)
  have third: "index (split_ws ''CREATE TABLE t (id int)'') 2 = Inr ''t''"
    by (simp add: eval_defs)
  have phrase: "\<not> contains ''PRIMARY KEY'' ''CREATE TABLE t (id int)''"
    by simp
  from create_table_pending_insertion
    [of "''CREATE TABLE t (id int)''" "''t''" "init ''CREATE TABLE t (id int)''"]
    kind third phrase
  show ?thesis
    by (simp add: init_def)
qed

text \<open>
  C2, as the code has it. When the loop over the statements has run to its end, the
  diagnostics hold exactly one "missing primary key" entry for each table name left in the
  set of tables without primary key and none for any other name. So a table declared by a
  piece of the document that the loop takes for a \<open>CREATE TABLE\<close> statement (the piece,
  untrimmed, starts with \<open>CREATE TABLE\<close>) and that lacks the phrase \<open>PRIMARY KEY\<close>, with
  no later piece that the loop takes for an \<open>ALTER TABLE ... ADD CONSTRAINT\<close> statement
  with \<open>PRIMARY KEY\<close> for it, is named by exactly one such diagnostic.
\<close>

theorem missing_primary_key_complete:
  assumes "lists_sets iter" and "check_queries (init d) (queries d) = Inr self'"
  shows "check_ddl_syntax iter (init d) = Inr (append_missing iter self') \<and>
    (\<forall>t. count_list (messages (append_missing iter self')) (MissingPrimaryKey t) =
       (if t \<in> no_primary_key_table_names self' then 1 else 0)) \<and>
    (\<forall>i t. i < length (queries d) \<and> declares_without_key t (queries d ! i) \<and>
        (\<forall>j. i < j \<and> j < length (queries d) \<longrightarrow> \<not> adds_primary_key t (queries d ! j)) \<longrightarrow>
        count_list (messages (append_missing iter self')) (MissingPrimaryKey t) = 1)"
proof -
  have run: "check_ddl_syntax iter (init d) = Inr (append_missing iter self')"
    using assms(2) by (simp add: check_ddl_syntax_def init_def)
  have "finite (no_primary_key_table_names (init d))"
    by (simp add: init_def)
  with assms(2) have fin: "finite (no_primary_key_table_names self')"
    by (rule check_queries_finite)
  from check_queries_messages [OF assms(2)] obtain new where
    new: "messages self' = new" "\<forall>t. MissingPrimaryKey t \<notin> set new"
    by (auto simp: init_def)
  have count: "count_list (messages (append_missing iter self')) (MissingPrimaryKey t) =
       (if t \<in> no_primary_key_table_names self' then 1 else 0)" for t
    using new count_list_lists_sets [OF assms(1) fin]
    by (simp add: append_missing_def)
  have "count_list (messages (append_missing iter self')) (MissingPrimaryKey t) = 1"
    if "i < length (queries d)" "declares_without_key t (queries d ! i)"
      "\<forall>j. i < j \<and> j < length (queries d) \<longrightarrow> \<not> adds_primary_key t (queries d ! j)" for i t
    using check_queries_declared [OF assms(2) that] count by simp
  with run count show ?thesis
    by blast
qed

theorem missing_primary_key_complete_witness:
  "lists_sets sorted_list_of_set \<and>
   check_queries (init ''CREATE TABLE t (id int);'') (queries ''CREATE TABLE t (id int);'') =
     Inr \<lparr>ddl = ''CREATE TABLE t (id int);'', no_primary_key_table_names = {''t''}, messages = []\<rparr> \<and>
   declares_without_key ''t'' (queries ''CREATE TABLE t (id int);'' ! 0) \<and>
   check_ddl_syntax sorted_list_of_set (init ''CREATE TABLE t (id int);'') =
     Inr \<lparr>ddl = ''CREATE TABLE t (id int);'', no_primary_key_table_names = {''t''},
          messages = [MissingPrimaryKey ''t'']\<rparr> \<and>
   count_list [MissingPrimaryKey ''t''] (MissingPrimaryKey ''t'') = 1"
proof -
  have run: "check_queries (init ''CREATE TABLE t (id int);'') (queries ''CREATE TABLE t (id int);'') =
     Inr \<lparr>ddl = ''CREATE TABLE t (id int);'', no_primary_key_table_names = {''t''}, messages = []\<rparr>"
    by (simp add: eval_defs)
  have decl: "declares_without_key ''t'' (queries ''CREATE TABLE t (id int);'' ! 0)"
    by (simp add: declares_without_key_def eval_defs)
  from missing_primary_key_complete [OF lists_sets_sorted run] lists_sets_sorted run decl
  show ?thesis
    by (simp add: append_missing_def)
qed

text \<open>
  C2 as stated fails: a \<open>CREATE TABLE\<close> statement is only taken for one when its piece of
  the document starts with \<open>CREATE TABLE\<close>, and the pieces are not trimmed. In the
  document that holds \<open>CREATE TABLE a (id int);\<close> and \<open>CREATE TABLE b (id int);\<close>, one on
  each line, neither statement has the phrase \<open>PRIMARY KEY\<close> and no \<open>ALTER TABLE\<close>
  statement follows, but the piece of the second statement starts with the line feed: the
  loop takes it for no statement, the set ends with the table \<open>a\<close> alone, and no diagnostic
  names the table \<open>b\<close>.
\<close>

theorem create_table_after_line_feed_not_reported:
  "queries (''CREATE TABLE a (id int);'' @ [newline] @ ''CREATE TABLE b (id int);'') =
     [''CREATE TABLE a (id int)'', newline # ''CREATE TABLE b (id int)'', ''''] \<and>
   statement_kind (newline # ''CREATE TABLE b (id int)'') = Unrecognized \<and>
   \<not> contains ''PRIMARY KEY''
      (''CREATE TABLE a (id int);'' @ [newline] @ ''CREATE TABLE b (id int);'') \<and>
   \<not> contains ''ALTER TABLE''
      (''CREATE TABLE a (id int);'' @ [newline] @ ''CREATE TABLE b (id int);'') \<and>
   check_ddl_syntax sorted_list_of_set
     (init (''CREATE TABLE a (id int);'' @ [newline] @ ''CREATE TABLE b (id int);'')) =
   Inr \<lparr>ddl = ''CREATE TABLE a (id int);'' @ [newline] @ ''CREATE TABLE b (id int);'',
        no_primary_key_table_names = {''a''}, messages = [MissingPrimaryKey ''a'']\<rparr> \<and>
   count_list [MissingPrimaryKey ''a''] (MissingPrimaryKey ''b'') = 0"
  by (simp add: eval_defs)

subsection \<open>Primary keys added by \<open>ALTER TABLE\<close>\<close>

text \<open>
  C1, as the code has it. A statement the loop takes for \<open>ALTER TABLE ... ADD CONSTRAINT\<close>
  whose seventh and eighth tokens are \<open>PRIMARY\<close> and \<open>KEY\<close> removes its third token from
  the set of tables without primary key when it is there, and appends the ordering
  diagnostic otherwise (after the diagnostics for the constraint identifier). For the
  document in which \<open>CREATE TABLE t (id int);\<close> and
  \<open>ALTER TABLE t ADD CONSTRAINT t_pk PRIMARY KEY (id);\<close> are separated by two line feeds,
  which the splitter deletes, the set receives \<open>t\<close> and loses it again, and the static check
  ends with no diagnostic.
\<close>

theorem alter_primary_key_satisfaction:
  "(statement_kind query = AlterTableAddConstraint \<and>
    index (split_ws query) 2 = Inr table_name \<and>
    index (split_ws query) 5 = Inr ident \<and>
    index (split_ws query) 6 = Inr ''PRIMARY'' \<and>
    index (split_ws query) 7 = Inr ''KEY'' \<longrightarrow>
    check_query self query =
      Inr (if table_name \<in> no_primary_key_table_names self
           then self\<lparr>no_primary_key_table_names := no_primary_key_table_names self - {table_name},
                     messages := messages self @ identifier_messages ident\<rparr>
           else self\<lparr>messages := messages self @ identifier_messages ident @
                                  [AlterOrder table_name]\<rparr>)) \<and>
   (let doc = ''CREATE TABLE t (id int);'' @ [newline, newline] @
              ''ALTER TABLE t ADD CONSTRAINT t_pk PRIMARY KEY (id);'';
        pending = \<lparr>ddl = doc, no_primary_key_table_names = {''t''}, messages = []\<rparr>
    in queries doc =
         [''CREATE TABLE t (id int)'', ''ALTER TABLE t ADD CONSTRAINT t_pk PRIMARY KEY (id)'', ''''] \<and>
       check_query (init doc) ''CREATE TABLE t (id int)'' = Inr pending \<and>
       check_query pending ''ALTER TABLE t ADD CONSTRAINT t_pk PRIMARY KEY (id)'' = Inr (init doc) \<and>
       check_query (init doc) '''' = Inr (init doc) \<and>
       (lists_sets iter \<longrightarrow>
          check_ddl_syntax iter (init doc) =
            Inr \<lparr>ddl = doc, no_primary_key_table_names = {}, messages = []\<rparr>))"
proof -
  have general: "statement_kind query = AlterTableAddConstraint \<and>
    index (split_ws query) 2 = Inr table_name \<and>
    index (split_ws query) 5 = Inr ident \<and>
    index (split_ws query) 6 = Inr ''PRIMARY'' \<and>
    index (split_ws query) 7 = Inr ''KEY'' \<longrightarrow>
    check_query self query =
      Inr (if table_name \<in> no_primary_key_table_names self
           then self\<lparr>no_primary_key_table_names := no_primary_key_table_names self - {table_name},
                     messages := messages self @ identifier_messages ident\<rparr>
           else self\<lparr>messages := messages self @ identifier_messages ident @
                                  [AlterOrder table_name]\<rparr>)"
    by (simp add: check_query_kind check_alter_primary_key_eq)
  define doc where "doc = ''CREATE TABLE t (id int);'' @ [newline, newline] @
              ''ALTER TABLE t ADD CONSTRAINT t_pk PRIMARY KEY (id);''"
  define pending where
    "pending = \<lparr>ddl = doc, no_primary_key_table_names = {''t''}, messages = []\<rparr>"
  have pieces: "queries doc =
         [''CREATE TABLE t (id int)'', ''ALTER TABLE t ADD CONSTRAINT t_pk PRIMARY KEY (id)'', '''']"
    by (simp add: doc_def eval_defs)
  have first: "check_query (init doc) ''CREATE TABLE t (id int)'' = Inr pending"
    by (simp add: pending_def eval_defs)
  have second:
    "check_query pending ''ALTER TABLE t ADD CONSTRAINT t_pk PRIMARY KEY (id)'' = Inr (init doc)"
    by (simp add: pending_def eval_defs)
  have third: "check_query (init doc) '''' = Inr (init doc)"
    by (simp add: eval_defs)
  have "check_queries (init doc) (queries doc) = Inr (init doc)"
    by (simp add: pieces first second third)
  then have "lists_sets iter \<longrightarrow>
          check_ddl_syntax iter (init doc) =
            Inr \<lparr>ddl = doc, no_primary_key_table_names = {}, messages = []\<rparr>"
    by (simp add: check_ddl_syntax_def append_missing_def lists_sets_empty init_def)
  with general pieces first second third show ?thesis
    unfolding doc_def [symmetric] pending_def [symmetric] Let_def by blast
qed

theorem alter_primary_key_satisfaction_witness:
  "statement_kind ''ALTER TABLE t ADD CONSTRAINT t_pk PRIMARY KEY (id)'' = AlterTableAddConstraint \<and>
   index (split_ws ''ALTER TABLE t ADD CONSTRAINT t_pk PRIMARY KEY (id)'') 2 = Inr ''t'' \<and>
   index (split_ws ''ALTER TABLE t ADD CONSTRAINT t_pk PRIMARY KEY (id)'') 5 = Inr ''t_pk'' \<and>
   index (split_ws ''ALTER TABLE t ADD CONSTRAINT t_pk PRIMARY KEY (id)'') 6 = Inr ''PRIMARY'' \<and>
   index (split_ws ''ALTER TABLE t ADD CONSTRAINT t_pk PRIMARY KEY (id)'') 7 = Inr ''KEY'' \<and>
   lists_sets sorted_list_of_set \<and>
   check_query \<lparr>ddl = '''', no_primary_key_table_names = {}, messages = []\<rparr>
       ''ALTER TABLE t ADD CONSTRAINT t_pk PRIMARY KEY (id)'' =
     Inr \<lparr>ddl = '''', no_primary_key_table_names = {}, messages = [AlterOrder ''t'']\<rparr> \<and>
   check_ddl_syntax sorted_list_of_set
       (init (''CREATE TABLE t (id int);'' @ [newline, newline] @
              ''ALTER TABLE t ADD CONSTRAINT t_pk PRIMARY KEY (id);'')) =
     Inr \<lparr>ddl = ''CREATE TABLE t (id int);'' @ [newline, newline] @
              ''ALTER TABLE t ADD CONSTRAINT t_pk PRIMARY KEY (id);'',
          no_primary_key_table_names = {}, messages = []\<rparr>"
proof -
  have kind: "statement_kind ''ALTER TABLE t ADD CONSTRAINT t_pk PRIMARY KEY (id)'' =
      AlterTableAddConstraint"
    by (simp add: eval_defs)
  have tokens:
    "index (split_ws ''ALTER TABLE t ADD CONSTRAINT t_pk PRIMARY KEY (id)'') 2 = Inr ''t''"
    "index (split_ws ''ALTER TABLE t ADD CONSTRAINT t_pk PRIMARY KEY (id)'') 5 = Inr ''t_pk''"
    "index (split_ws ''ALTER TABLE t ADD CONSTRAINT t_pk PRIMARY KEY (id)'') 6 = Inr ''PRIMARY''"
    "index (split_ws ''ALTER TABLE t ADD CONSTRAINT t_pk PRIMARY KEY (id)'') 7 = Inr ''KEY''"
    by (simp_all add: eval_defs)
  have no_messages: "identifier_messages ''t_pk'' = []"
    by (simp add: identifier_messages_def eval_defs)
  from alter_primary_key_satisfaction
    [of "''ALTER TABLE t ADD CONSTRAINT t_pk PRIMARY KEY (id)''" "''t''" "''t_pk''"
      "\<lparr>ddl = '''', no_primary_key_table_names = {}, messages = []\<rparr>" sorted_list_of_set]
    kind tokens no_messages lists_sets_sorted
  show ?thesis
    by (simp add: Let_def)
qed

text \<open>
  C1 as stated fails on its own document: with a blank between the two statements the
  second piece starts with that blank, no test of the loop accepts it, \<open>t\<close> stays in the
  set and the "missing primary key" diagnostic for \<open>t\<close> is appended.
\<close>

theorem alter_after_blank_not_recognized:
  "check_ddl_syntax sorted_list_of_set
     (init ''CREATE TABLE t (id int); ALTER TABLE t ADD CONSTRAINT t_pk PRIMARY KEY (id);'') =
   Inr \<lparr>ddl = ''CREATE TABLE t (id int); ALTER TABLE t ADD CONSTRAINT t_pk PRIMARY KEY (id);'',
        no_primary_key_table_names = {''t''}, messages = [MissingPrimaryKey ''t'']\<rparr>"
  by (simp add: eval_defs)

subsection \<open>Names of indexes\<close>



subsection \<open>The length of quoted names\<close>

text \<open>
  C5, at an input where the code departs from it. The name of a table and the name of an
  index are measured with their double quotes: a quoted name of 62 characters is a token
  of 64 characters and gets the length diagnostic, from \<open>CREATE TABLE\<close> and from
  \<open>CREATE INDEX\<close> alike, although its length without the quotes does not exceed 63.
  The same token as the identifier of a constraint gets no diagnostic, because
  \<open>_check_alter_table_add_constraint_query\<close> removes the quotes before it measures.
\<close>

theorem quoted_name_length_counts_quotes:
  "(let table_name =
          [dquote] @ ''customer_account_notification_preference_history_archive_y2024'' @ [dquote];
        index_name =
          [dquote] @ ''CustomerAccountNotificationPreferenceHistoryArchiveIndexOnEmai'' @ [dquote]
    in length (filter (\<lambda>c. c \<noteq> dquote) table_name) = 62 \<and>
       length (filter (\<lambda>c. c \<noteq> dquote) index_name) = 62 \<and>
       check_query (init '''') (''CREATE TABLE '' @ table_name @ '' (id int, PRIMARY KEY (id))'') =
         Inr \<lparr>ddl = '''', no_primary_key_table_names = {},
              messages = [TableNameTooLong table_name]\<rparr> \<and>
       check_query (init '''') (''CREATE INDEX '' @ index_name @ '' ON t (id)'') =
         Inr \<lparr>ddl = '''', no_primary_key_table_names = {},
              messages = [IndexNameTooLong index_name]\<rparr> \<and>
       check_query (init '''') (''ALTER TABLE t ADD CONSTRAINT '' @ index_name @ '' UNIQUE (id)'') =
         Inr \<lparr>ddl = '''', no_primary_key_table_names = {}, messages = []\<rparr>)"
  by (simp add: eval_defs)

subsection \<open>Failures of the execution\<close>

text \<open>
  C7, at an input where the code departs from it. The text of a failure that the pattern
  does not match is appended in lower case, not as the engine wrote it: for
  \<open>relation "Users" already exists\<close> the diagnostic reads
  \<open>relation "users" already exists\<close>.
\<close>

theorem failure_text_is_lowered:
  "(let text = ''relation '' @ [dquote] @ ''Users'' @ [dquote] @ '' already exists'';
        lowered = ''relation '' @ [dquote] @ ''users'' @ [dquote] @ '' already exists''
    in re_search partition_pattern (lower text) = None \<and>
       handle_failure_text (init '''') text =
         Inr \<lparr>ddl = '''', no_primary_key_table_names = {}, messages = [RawError lowered]\<rparr> \<and>
       execute_loop (init '''') [RaisedOperational, RaisedOther text] =
         Some (Inr \<lparr>ddl = '''', no_primary_key_table_names = {}, messages = [RawError lowered]\<rparr>) \<and>
       RawError lowered \<noteq> RawError text)"
  by code_simp

subsection \<open>Table names the \<open>ALTER TABLE\<close> pattern rejects\<close>

text \<open>
  C9. A statement \<open>ALTER TABLE name ADD CONSTRAINT ...\<close> whose table name (a word without
  blank) has a character outside \<open>[a-z0-9_]\<close> is not recognized: the loop leaves the
  checker as it is, so neither its identifier is checked nor its table removed from the
  set of tables without primary key. No statement at all removes such a name from the
  set, so whenever the loop runs to its end over a document in which a \<open>CREATE TABLE\<close>
  statement without the phrase \<open>PRIMARY KEY\<close> declares that name, the diagnostics hold
  the "missing primary key" entry for it, exactly once.
\<close>

theorem alter_other_name_skipped:
  assumes "CHR '' '' \<notin> set name" and "\<exists>c \<in> set name. \<not> is_name_char c"
  shows "statement_kind (''ALTER TABLE '' @ name @ '' ADD CONSTRAINT'' @ rest) = Unrecognized \<and>
    check_query self (''ALTER TABLE '' @ name @ '' ADD CONSTRAINT'' @ rest) = Inr self \<and>
    (\<forall>query. \<not> adds_primary_key name query) \<and>
    (\<forall>iter d self' i. lists_sets iter \<and> check_queries (init d) (queries d) = Inr self' \<and>
        i < length (queries d) \<and> declares_without_key name (queries d ! i) \<longrightarrow>
        check_ddl_syntax iter (init d) = Inr (append_missing iter self') \<and>
        count_list (messages (append_missing iter self')) (MissingPrimaryKey name) = 1)"
proof -
  have kind: "statement_kind (''ALTER TABLE '' @ name @ '' ADD CONSTRAINT'' @ rest) = Unrecognized"
    using assms by (rule alter_other_name_unrecognized)
  then have skip: "check_query self (''ALTER TABLE '' @ name @ '' ADD CONSTRAINT'' @ rest) =
      Inr self"
    by (simp add: check_query_kind)
  have never: "\<not> adds_primary_key name query" for query
    using adds_primary_key_name_chars assms(2) by blast
  have "check_ddl_syntax iter (init d) = Inr (append_missing iter self') \<and>
        count_list (messages (append_missing iter self')) (MissingPrimaryKey name) = 1"
    if "lists_sets iter" and run: "check_queries (init d) (queries d) = Inr self'"
      and "i < length (queries d)" and "declares_without_key name (queries d ! i)"
    for iter d self' i
  proof -
    from run that(3,4) never have "name \<in> no_primary_key_table_names self'"
      using check_queries_declared by blast
    with count_missing_after_loop [OF that(1) run]
    have "count_list (messages (append_missing iter self')) (MissingPrimaryKey name) = 1"
      by simp
    moreover from run have "check_ddl_syntax iter (init d) = Inr (append_missing iter self')"
      by (simp add: check_ddl_syntax_def init_def)
    ultimately show ?thesis
      by simp
  qed
  with kind skip never show ?thesis
    by blast
qed

theorem alter_other_name_skipped_witness:
  "CHR '' '' \<notin> set ''Users'' \<and> (\<exists>c \<in> set ''Users''. \<not> is_name_char c) \<and>
   lists_sets sorted_list_of_set \<and>
   statement_kind (''ALTER TABLE '' @ ''Users'' @ '' ADD CONSTRAINT'' @
     '' users_pk PRIMARY KEY (id)'') = Unrecognized \<and>
   declares_without_key ''Users''
     (queries (''CREATE TABLE Users (id int);'' @ [newline, newline] @
        ''ALTER TABLE Users ADD CONSTRAINT users_pk PRIMARY KEY (id);'') ! 0) \<and>
   check_ddl_syntax sorted_list_of_set
     (init (''CREATE TABLE Users (id int);'' @ [newline, newline] @
        ''ALTER TABLE Users ADD CONSTRAINT users_pk PRIMARY KEY (id);'')) =
     Inr \<lparr>ddl = ''CREATE TABLE Users (id int);'' @ [newline, newline] @
            ''ALTER TABLE Users ADD CONSTRAINT users_pk PRIMARY KEY (id);'',
          no_primary_key_table_names = {''Users''},
          messages = [MissingPrimaryKey ''Users'']\<rparr>"
proof -
  define doc where "doc = ''CREATE TABLE Users (id int);'' @ [newline, newline] @
        ''ALTER TABLE Users ADD CONSTRAINT users_pk PRIMARY KEY (id);''"
  define after where
    "after = \<lparr>ddl = doc, no_primary_key_table_names = {''Users''}, messages = []\<rparr>"
  have blank: "CHR '' '' \<notin> set ''Users''"
    by simp
  have upper: "\<exists>c \<in> set ''Users''. \<not> is_name_char c"
    by (simp add: is_name_char_def is_lower_def is_digit_def)
  have pieces: "queries doc =
      [''CREATE TABLE Users (id int)'',
       ''ALTER TABLE Users ADD CONSTRAINT users_pk PRIMARY KEY (id)'', '''']"
    by (simp add: doc_def eval_defs)
  have run: "check_queries (init doc) (queries doc) = Inr after"
    unfolding pieces by (simp add: after_def eval_defs)
  have decl: "declares_without_key ''Users'' (queries doc ! 0)"
    unfolding pieces by (simp add: declares_without_key_def eval_defs)
  have first: "0 < length (queries doc)"
    unfolding pieces by simp
  note skipped = alter_other_name_skipped [OF blank upper,
      of "'' users_pk PRIMARY KEY (id)''" "init ''''"]
  from skipped have kind: "statement_kind (''ALTER TABLE '' @ ''Users'' @ '' ADD CONSTRAINT'' @
     '' users_pk PRIMARY KEY (id)'') = Unrecognized"
    by (rule conjunct1)
  from skipped have "\<forall>iter d self' i.
      lists_sets iter \<and> check_queries (init d) (queries d) = Inr self' \<and>
      i < length (queries d) \<and> declares_without_key ''Users'' (queries d ! i) \<longrightarrow>
      check_ddl_syntax iter (init d) = Inr (append_missing iter self') \<and>
      count_list (messages (append_missing iter self')) (MissingPrimaryKey ''Users'') = 1"
    by (elim conjE)
  from this [rule_format, of sorted_list_of_set doc after 0] lists_sets_sorted run first decl
  have "check_ddl_syntax sorted_list_of_set (init doc) =
      Inr (append_missing sorted_list_of_set after)"
    by blast
  then have final: "check_ddl_syntax sorted_list_of_set (init doc) =
      Inr \<lparr>ddl = doc, no_primary_key_table_names = {''Users''},
           messages = [MissingPrimaryKey ''Users'']\<rparr>"
    by (simp add: after_def append_missing_def)
  from blank upper lists_sets_sorted kind decl final show ?thesis
    unfolding doc_def by blast
qed

subsection \<open>The statements of a document\<close>

text \<open>
  C4, as the code has it. The splitter deletes the pairs of adjacent line feeds, from left to
  right, and changes nothing else: a text without such a pair is unchanged, and when the
  leftmost pair stands after \<open>u\<close> (so \<open>u\<close> followed by one line feed holds no pair) the
  result is \<open>u\<close>, unchanged, followed by the result for what comes after the pair. These two
  equations fix the result: any \<open>f\<close> that obeys them gives what the splitter gives. As a
  consequence nothing but line feeds goes and no pair is left. The result is cut
  at every \<open>;\<close>: the pieces, each written after a \<open>;\<close>, give back the text after
  one \<open>;\<close>, and no piece holds a \<open>;\<close>. The pieces are kept as they are: there is always
  at least one, none is trimmed and none is dropped. A piece that none of the tests of the
  loop accepts leaves the checker as it is, with no diagnostic; the empty piece and every
  piece that starts with white space are such pieces.
\<close>

theorem statement_splitting:
  "queries d \<noteq> [] \<and>
   concat (map ((#) CHR '';'') (queries d)) = CHR '';'' # remove_double_newlines d \<and>
   (\<forall>query \<in> set (queries d). CHR '';'' \<notin> set query) \<and>
   filter (\<lambda>c. c \<noteq> newline) (remove_double_newlines d) = filter (\<lambda>c. c \<noteq> newline) d \<and>
   \<not> contains [newline, newline] (remove_double_newlines d) \<and>
   (\<not> contains [newline, newline] d \<longrightarrow> remove_double_newlines d = d) \<and>
   (\<not> contains [newline, newline] (u @ [newline]) \<longrightarrow>
      remove_double_newlines (u @ [newline, newline] @ v) = u @ remove_double_newlines v) \<and>
   ((\<forall>s. \<not> contains [newline, newline] s \<longrightarrow> f s = s) \<and>
    (\<forall>a b. \<not> contains [newline, newline] (a @ [newline]) \<longrightarrow>
       f (a @ [newline, newline] @ b) = a @ f b) \<longrightarrow>
    f d = remove_double_newlines d) \<and>
   (statement_kind query = Unrecognized \<longrightarrow> check_query self query = Inr self) \<and>
   statement_kind [] = Unrecognized \<and>
   (is_space c \<longrightarrow> statement_kind (c # query') = Unrecognized)"
proof -
  have "queries d \<noteq> []"
    by (simp add: queries_def split_on_nonempty)
  moreover have "concat (map ((#) CHR '';'') (queries d)) = CHR '';'' # remove_double_newlines d"
    by (simp add: queries_def split_on_join)
  moreover have "\<forall>query \<in> set (queries d). CHR '';'' \<notin> set query"
    by (simp add: queries_def split_on_no_sep)
  moreover have "\<not> contains [newline, newline] d \<longrightarrow> remove_double_newlines d = d"
    by (simp add: remove_double_newlines_id)
  moreover have "\<not> contains [newline, newline] (u @ [newline]) \<longrightarrow>
      remove_double_newlines (u @ [newline, newline] @ v) = u @ remove_double_newlines v"
    using remove_double_newlines_leftmost by blast
  moreover have "(\<forall>s. \<not> contains [newline, newline] s \<longrightarrow> f s = s) \<and>
    (\<forall>a b. \<not> contains [newline, newline] (a @ [newline]) \<longrightarrow>
       f (a @ [newline, newline] @ b) = a @ f b) \<longrightarrow>
    f d = remove_double_newlines d"
  proof
    assume eqs: "(\<forall>s. \<not> contains [newline, newline] s \<longrightarrow> f s = s) \<and>
      (\<forall>a b. \<not> contains [newline, newline] (a @ [newline]) \<longrightarrow>
         f (a @ [newline, newline] @ b) = a @ f b)"
    show "f d = remove_double_newlines d"
    proof (rule remove_double_newlines_unique)
      fix s
      assume "\<not> contains [newline, newline] s"
      with eqs show "f s = s"
        by blast
    next
      fix a b
      assume "\<not> contains [newline, newline] (a @ [newline])"
      with eqs show "f (a @ [newline, newline] @ b) = a @ f b"
        by blast
    qed
  qed
  moreover have "statement_kind query = Unrecognized \<longrightarrow> check_query self query = Inr self"
    by (simp add: unrecognized_skipped)
  moreover have "is_space c \<longrightarrow> statement_kind (c # query') = Unrecognized"
    by (simp add: leading_space_unrecognized)
  moreover note remove_double_newlines_filter [of d] remove_double_newlines_no_pair [of d]
    empty_unrecognized
  ultimately show ?thesis
    by (intro conjI)
qed

theorem statement_splitting_witness:
  "\<not> contains [newline, newline]
      ((''CREATE TABLE a (id int);'' @ [newline] @ ''CREATE TABLE b (id int);'') @ [newline]) \<and>
   \<not> contains [newline, newline] ''CREATE TABLE c (id int);'' \<and>
   remove_double_newlines
     ((''CREATE TABLE a (id int);'' @ [newline] @ ''CREATE TABLE b (id int);'') @
      [newline, newline] @ ''CREATE TABLE c (id int);'') =
     (''CREATE TABLE a (id int);'' @ [newline] @ ''CREATE TABLE b (id int);'') @
     ''CREATE TABLE c (id int);'' \<and>
   queries
     ((''CREATE TABLE a (id int);'' @ [newline] @ ''CREATE TABLE b (id int);'') @
      [newline, newline] @ ''CREATE TABLE c (id int);'') \<noteq> [] \<and>
   concat (map ((#) CHR '';'') (queries
     ((''CREATE TABLE a (id int);'' @ [newline] @ ''CREATE TABLE b (id int);'') @
      [newline, newline] @ ''CREATE TABLE c (id int);''))) =
     CHR '';'' # (''CREATE TABLE a (id int);'' @ [newline] @ ''CREATE TABLE b (id int);'') @
     ''CREATE TABLE c (id int);'' \<and>
   newline # ''CREATE TABLE b (id int)'' \<in> set (queries
     ((''CREATE TABLE a (id int);'' @ [newline] @ ''CREATE TABLE b (id int);'') @
      [newline, newline] @ ''CREATE TABLE c (id int);'')) \<and>
   CHR '';'' \<notin> set (newline # ''CREATE TABLE b (id int)'') \<and>
   is_space newline \<and>
   statement_kind (newline # ''CREATE TABLE b (id int)'') = Unrecognized \<and>
   check_query (init '''') (newline # ''CREATE TABLE b (id int)'') = Inr (init '''')"
proof -
  let ?u = "''CREATE TABLE a (id int);'' @ [newline] @ ''CREATE TABLE b (id int);''"
  let ?v = "''CREATE TABLE c (id int);''"
  let ?d = "?u @ [newline, newline] @ ?v"
  let ?q = "newline # ''CREATE TABLE b (id int)''"
  have leftmost: "\<not> contains [newline, newline] (?u @ [newline])"
    by (simp add: newline_def)
  have no_pair: "\<not> contains [newline, newline] ?v"
    by (simp add: newline_def)
  have blank: "is_space newline"
    by (simp add: is_space_def newline_def)
  have piece: "?q \<in> set (queries ?d)"
    by (simp add: queries_def newline_def)
  note whole = statement_splitting
    [of ?d ?u ?v remove_double_newlines ?q "init ''''" newline "''CREATE TABLE b (id int)''"]
  note rest = statement_splitting
    [of ?v ?u ?v remove_double_newlines ?q "init ''''" newline "''CREATE TABLE b (id int)''"]
  note same = rest [THEN conjunct2, THEN conjunct2, THEN conjunct2, THEN conjunct2,
      THEN conjunct2, THEN conjunct1, THEN mp, OF no_pair]
  note pieces = whole [THEN conjunct1]
  note c2 = whole [THEN conjunct2]
  note join = c2 [THEN conjunct1]
  note c3 = c2 [THEN conjunct2]
  note no_sep = c3 [THEN conjunct1, THEN bspec, OF piece]
  note c7 = c3 [THEN conjunct2, THEN conjunct2, THEN conjunct2, THEN conjunct2]
  note cut = c7 [THEN conjunct1, THEN mp, OF leftmost]
  note result = cut [unfolded same]
  note c9 = c7 [THEN conjunct2, THEN conjunct2]
  note kind = c9 [THEN conjunct2, THEN conjunct2, THEN mp, OF blank]
  note skip = c9 [THEN conjunct1, THEN mp, OF kind]
  note joined = join [unfolded result]
  from leftmost no_pair result pieces joined piece no_sep blank kind skip show ?thesis
    by (intro conjI)
qed

text \<open>
  C4 as stated fails: the pieces are not trimmed and the empty piece after the last \<open>;\<close>
  is not dropped. In the document \<open>CREATE TABLE a (id int); CREATE TABLE b (id int);\<close> the
  second piece keeps its leading blank, so it is not taken for a \<open>CREATE TABLE\<close>
  statement, and only the table \<open>a\<close> is reported without primary key.
\<close>

theorem statements_not_trimmed:
  "queries ''CREATE TABLE a (id int); CREATE TABLE b (id int);'' =
     [''CREATE TABLE a (id int)'', '' CREATE TABLE b (id int)'', ''''] \<and>
   queries ''CREATE TABLE a (id int); CREATE TABLE b (id int);'' \<noteq>
     [''CREATE TABLE a (id int)'', ''CREATE TABLE b (id int)''] \<and>
   statement_kind '' CREATE TABLE b (id int)'' = Unrecognized \<and>
   statement_kind ''CREATE TABLE b (id int)'' = CreateTable \<and>
   check_ddl_syntax sorted_list_of_set
     (init ''CREATE TABLE a (id int); CREATE TABLE b (id int);'') =
   Inr \<lparr>ddl = ''CREATE TABLE a (id int); CREATE TABLE b (id int);'',
        no_primary_key_table_names = {''a''}, messages = [MissingPrimaryKey ''a'']\<rparr>"
  by (simp add: eval_defs)

subsection \<open>The list the check returns\<close>



subsection \<open>Reads past the last token\<close>

text \<open>
  C10. The checkers read tokens at fixed positions without looking at the number of tokens.
  The statements \<open>CREATE TABLE\<close>, \<open>ALTER TABLE t ADD CONSTRAINT\<close> and
  \<open>ALTER TABLE t ADD CONSTRAINT c PRIMARY\<close> pass the tests of the loop, and the checker
  then reads the third, the sixth and the eighth token, which they do not have: the
  static check of each of these documents ends in \<open>IndexError\<close>, with no list of
  diagnostics, and so does the whole check.
\<close>

theorem fixed_token_reads_raise:
  "statement_kind ''CREATE TABLE'' = CreateTable \<and>
   statement_kind ''ALTER TABLE t ADD CONSTRAINT'' = AlterTableAddConstraint \<and>
   statement_kind ''ALTER TABLE t ADD CONSTRAINT c PRIMARY'' = AlterTableAddConstraint \<and>
   index (split_ws ''CREATE TABLE'') 2 = Inl IndexError \<and>
   index (split_ws ''ALTER TABLE t ADD CONSTRAINT'') 5 = Inl IndexError \<and>
   index (split_ws ''ALTER TABLE t ADD CONSTRAINT c PRIMARY'') 7 = Inl IndexError \<and>
   check_ddl_syntax iter (init ''CREATE TABLE'') = Inl IndexError \<and>
   check_ddl_syntax iter (init ''ALTER TABLE t ADD CONSTRAINT'') = Inl IndexError \<and>
   check_ddl_syntax iter (init ''ALTER TABLE t ADD CONSTRAINT c PRIMARY'') = Inl IndexError \<and>
   check_ddl iter w ''CREATE TABLE'' = Some (Inl IndexError) \<and>
   check_ddl iter w ''ALTER TABLE t ADD CONSTRAINT'' = Some (Inl IndexError) \<and>
   check_ddl iter w ''ALTER TABLE t ADD CONSTRAINT c PRIMARY'' = Some (Inl IndexError)"
proof -
  have kinds: "statement_kind ''CREATE TABLE'' = CreateTable"
    "statement_kind ''ALTER TABLE t ADD CONSTRAINT'' = AlterTableAddConstraint"
    "statement_kind ''ALTER TABLE t ADD CONSTRAINT c PRIMARY'' = AlterTableAddConstraint"
    by (simp_all add: eval_defs)
  have reads: "index (split_ws ''CREATE TABLE'') 2 = Inl IndexError"
    "index (split_ws ''ALTER TABLE t ADD CONSTRAINT'') 5 = Inl IndexError"
    "index (split_ws ''ALTER TABLE t ADD CONSTRAINT c PRIMARY'') 7 = Inl IndexError"
    by (simp_all add: eval_defs)
  have a: "check_ddl_syntax iter (init ''CREATE TABLE'') = Inl IndexError"
    by (simp add: eval_defs)
  have b: "check_ddl_syntax iter (init ''ALTER TABLE t ADD CONSTRAINT'') = Inl IndexError"
    by (simp add: eval_defs)
  have c: "check_ddl_syntax iter (init ''ALTER TABLE t ADD CONSTRAINT c PRIMARY'') = Inl IndexError"
    by (simp add: eval_defs)
  from kinds reads a b c show ?thesis
    by (simp add: check_ddl_def)
qed

end
